theory Spec2Isabelle
  imports Main "HOL-Library.Sublist"
begin

section \<open>The deals tracker \<^verbatim>\<open>alert_on_new_posts.py\<close>\<close>

text \<open>
  A shallow embedding of the script: the crawl over the listing pages, the delta against
  the links seen by the previous run, the CSV state file and the notification. Strings are
  lists of bytes; the literals of the source are copied as they stand in the file.
  The interpreter's recursion limit is not modelled: \<open>scrape_page\<close> recurses as deep as
  the listing is long.
\<close>

subsection \<open>Records\<close>

text \<open>
  A post is the dict \<^verbatim>\<open>{"title": .., "link": .., "date": ..}\<close> built at line 103; every
  post of the program has exactly these three keys, so \<^verbatim>\<open>post.get("link")\<close> is the field.
\<close>

record post =
  title :: string
  link :: string
  date :: string

subsection \<open>What the parser hands to the script\<close>

text \<open>
  The markup is parsed by BeautifulSoup, a library outside the repository. A parsed page is
  modelled by the answers of the queries the script makes on it:
  \<^item> for an anchor \<open>a\<close>: \<^verbatim>\<open>a.get_text(" ", strip=True)\<close>, \<^verbatim>\<open>a.get("href")\<close> and the chain
    \<^verbatim>\<open>a.find_parent("dt")\<close>, \<^verbatim>\<open>dt.find_next_sibling("dd")\<close>, \<^verbatim>\<open>dd.select_one("span.meta")\<close>,
    \<^verbatim>\<open>meta_span.get_text(strip=True)\<close>, each step of which may find nothing;
  \<^item> for a page: the two selections of entry anchors and the pager anchor
    \<^verbatim>\<open>li a[title="Go to next page"]\<close> with its \<^verbatim>\<open>href\<close> attribute, absent or not.
\<close>

datatype dd_elem = Dd "string option"

datatype dt_elem = Dt "dd_elem option"

record anchor =
  get_text :: string
  href :: "string option"
  find_parent_dt :: "dt_elem option"

record soup =
  select_search_results :: "anchor list"
  select_dt_title :: "anchor list"
  next_link_tag :: "string option option"

text \<open>
  \<^verbatim>\<open>requests.get\<close> followed by \<^verbatim>\<open>raise_for_status\<close>: a \<^verbatim>\<open>RequestException\<close> with its
  message (network error, timeout, non-success status), or the parsed body. The site is a
  function of the URL for the length of one run.
\<close>

datatype http_result = RequestException string | Response soup

datatype py_exception = SystemExit nat | TypeError | FileNotFoundError | OSError

datatype 'a result = Return 'a | Raise py_exception

subsection \<open>Effects\<close>

record email_params =
  from_addr :: string
  to_addrs :: "string list"
  subject :: string
  html :: string

type_synonym csv_row = "(string \<times> string) list"

datatype event =
    Print string
  | HttpGet string
  | Sleep nat
  | PathExists string
  | OpenRead string
  | MakeDirs string
  | OpenWrite string
  | EmailsSend email_params

subsection \<open>Delta engine (lines 174-176)\<close>

text \<open>The list comprehension, as the loop it is.\<close>

fun check_for_new_posts :: "post list \<Rightarrow> string set \<Rightarrow> post list" where
  "check_for_new_posts [] last_post_links = []"
| "check_for_new_posts (p # current_posts) last_post_links =
     (if link p \<notin> last_post_links
      then p # check_for_new_posts current_posts last_post_links
      else check_for_new_posts current_posts last_post_links)"

subsection \<open>Page extraction and crawl (lines 57-131)\<close>

definition BASE_URL :: string where
  "BASE_URL = ''https://www.ozbargain.com.au''"

definition startswith :: "string \<Rightarrow> string \<Rightarrow> bool" where
  "startswith s p = (take (length p) s = p)"

text \<open>Lines 92-99: the date of an entry, empty when a step of the chain finds nothing.\<close>

fun date_text :: "dt_elem option \<Rightarrow> string" where
  "date_text (Some (Dt (Some (Dd (Some t))))) = t"
| "date_text _ = []"

text \<open>Line 101.\<close>

definition link_full :: "string \<Rightarrow> string" where
  "link_full h = (if startswith h ''/'' then BASE_URL @ h else h)"

text \<open>
  Lines 85-103, the body of the loop over the anchors: \<^verbatim>\<open>a.get("href") or ""\<close>, the
  \<^verbatim>\<open>continue\<close> on an empty href or title, and the append unless a post of the collection
  has the link already.
\<close>

definition add_post :: "anchor \<Rightarrow> post list \<Rightarrow> post list" where
  "add_post a all_posts =
     (let t = get_text a;
          h = (case href a of None \<Rightarrow> [] | Some v \<Rightarrow> v)
      in if h = [] \<or> t = [] then all_posts
         else if list_ex (\<lambda>p. link p = link_full h) all_posts then all_posts
         else all_posts @ [\<lparr>title = t, link = link_full h, date = date_text (find_parent_dt a)\<rparr>])"

fun extract_posts :: "anchor list \<Rightarrow> post list \<Rightarrow> post list" where
  "extract_posts [] all_posts = all_posts"
| "extract_posts (a # as) all_posts = extract_posts as (add_post a all_posts)"

text \<open>Lines 80-82: the primary selection, or the looser one when it is empty.\<close>

definition search_result_links :: "soup \<Rightarrow> anchor list" where
  "search_result_links s =
     (if select_search_results s = [] then select_dt_title s else select_search_results s)"

text \<open>
  \<open>scrape_page\<close> mutates the list it is given and calls itself on the next page; the
  model passes the list and the trace of effects along. The value of the recursive call is
  dropped by the source, which then returns \<^verbatim>\<open>all_posts\<close>: the same list object the inner
  call has appended to and returned, so the outer result is the inner one. An exception
  that is not a \<^verbatim>\<open>RequestException\<close> leaves every frame: \<^verbatim>\<open>BASE_URL + None\<close> is a
  \<^verbatim>\<open>TypeError\<close> when the pager anchor has no href. A crawl that never ends is \<open>None\<close>.
\<close>

partial_function (option) scrape_page ::
  "(string \<Rightarrow> http_result) \<Rightarrow> string \<Rightarrow> post list \<Rightarrow> event list
     \<Rightarrow> (post list result \<times> event list) option" where
  "scrape_page web url all_posts tr =
     (let tr1 = tr @ [Print (''Scraping page: '' @ url), HttpGet url] in
      case web url of
        RequestException e \<Rightarrow>
          Some (Return all_posts, tr1 @ [Print (''Error fetching URL '' @ url @ '': '' @ e)])
      | Response page \<Rightarrow>
          (let all_posts' = extract_posts (search_result_links page) all_posts in
           case next_link_tag page of
             None \<Rightarrow> Some (Return all_posts', tr1)
           | Some None \<Rightarrow> Some (Raise TypeError, tr1)
           | Some (Some next_relative_url) \<Rightarrow>
               scrape_page web (BASE_URL @ next_relative_url) all_posts' (tr1 @ [Sleep 1])))"

definition scrape_all_pages ::
  "(string \<Rightarrow> http_result) \<Rightarrow> string \<Rightarrow> event list
     \<Rightarrow> (post list result \<times> event list) option" where
  "scrape_all_pages web start_url tr = scrape_page web start_url [] tr"

subsection \<open>Configuration check (lines 13-51)\<close>

definition required_vars :: "string list" where
  "required_vars =
     [''URL'', ''LAST_POSTS_FILE'', ''SENDER_EMAIL'', ''RECIPIENT_EMAIL'', ''TITLE'',
      ''RESEND_API_KEY'']"

text \<open>
  Lines 25-27: \<^verbatim>\<open>not os.environ.get(var)\<close> holds for a variable that is unset and for one
  set to the empty string.
\<close>

fun collect_missing ::
  "(string \<Rightarrow> string option) \<Rightarrow> string list \<Rightarrow> string list \<Rightarrow> string list" where
  "collect_missing env [] missing_vars = missing_vars"
| "collect_missing env (var # vars) missing_vars =
     collect_missing env vars
       (if (case env var of None \<Rightarrow> True | Some v \<Rightarrow> v = [])
        then missing_vars @ [var] else missing_vars)"

fun join :: "string \<Rightarrow> string list \<Rightarrow> string" where
  "join sep [] = []"
| "join sep [x] = x"
| "join sep (x # y # ys) = x @ sep @ join sep (y # ys)"

text \<open>The bytes that stand between the dashes and \<^verbatim>\<open>CRITICAL ERROR\<close> at line 30.\<close>

definition critical_mark :: string where
  "critical_mark = [CHR 0xE2, CHR 0x80, CHR 0x9A, CHR 0xC3, CHR 0xB9, CHR 0xC3, CHR 0xA5]"

definition check_environment_vars ::
  "(string \<Rightarrow> string option) \<Rightarrow> event list \<Rightarrow> unit result \<times> event list" where
  "check_environment_vars env tr =
     (let missing_vars = collect_missing env required_vars [] in
      if missing_vars \<noteq> []
      then (Raise (SystemExit 1),
            tr @ [Print (''--- '' @ critical_mark @ '' CRITICAL ERROR ---''),
                  Print (''The following required environment variables are missing: ''
                         @ join '', '' missing_vars),
                  Print ''Script aborted.''])
      else (Return (), tr))"

subsection \<open>The surroundings of one run\<close>

text \<open>
  What the run reads and cannot change: the environment, the site, the clock reading of
  line 218, whether \<^verbatim>\<open>os.makedirs\<close> fails on a directory, whether opening a path for
  writing fails (with the exception's text), and what the mail transport answers to a
  send: the text of an exception, or the \<^verbatim>\<open>id\<close> of the response if it has one.
\<close>

record world =
  environ :: "string \<Rightarrow> string option"
  site :: "string \<Rightarrow> http_result"
  strftime :: string
  makedirs_fails :: "string \<Rightarrow> bool"
  open_w_error :: "string \<Rightarrow> string option"
  resend_send :: "email_params \<Rightarrow> string + string option"

text \<open>
  A state file is what \<^verbatim>\<open>csv.DictReader\<close> yields from it: its rows as dicts from the
  header's field names, in order; \<open>Unreadable rows e\<close> is a file whose reading raises
  an exception with text \<open>e\<close> after the rows \<open>rows\<close>. The \<^verbatim>\<open>csv\<close> module is taken to
  read back the rows it wrote.
\<close>

datatype csv_file = Csv "csv_row list" | Unreadable "csv_row list" string

record state =
  files :: "string \<Rightarrow> csv_file option"
  events :: "event list"

text \<open>
  Lines 43-51: the settings are read after the check, which has found each of them set
  and not empty (lemma \<open>cfg_checked\<close> below); an unset one would be \<^verbatim>\<open>None\<close>.
\<close>

definition cfg :: "world \<Rightarrow> string \<Rightarrow> string" where
  "cfg w var = (case environ w var of None \<Rightarrow> [] | Some v \<Rightarrow> v)"

subsection \<open>Prior-state store (lines 137-171)\<close>

text \<open>\<^verbatim>\<open>str.strip()\<close> on the ASCII whitespace characters.\<close>

definition isspace :: "char \<Rightarrow> bool" where
  "isspace c =
     (c \<in> set [CHR 0x09, CHR 0x0A, CHR 0x0B, CHR 0x0C, CHR 0x0D, CHR 0x1C, CHR 0x1D,
                CHR 0x1E, CHR 0x1F, CHR 0x20])"

definition strip :: "string \<Rightarrow> string" where
  "strip s = rev (dropWhile isspace (rev (dropWhile isspace s)))"

fun read_links :: "csv_row list \<Rightarrow> string set \<Rightarrow> string set" where
  "read_links [] seen_links = seen_links"
| "read_links (row # rows) seen_links =
     (let link_value = strip (case map_of row ''link'' of None \<Rightarrow> [] | Some v \<Rightarrow> v)
      in read_links rows
           (if link_value \<noteq> [] then insert link_value seen_links else seen_links))"

definition load_last_posts :: "string \<Rightarrow> state \<Rightarrow> string set \<times> state" where
  "load_last_posts LAST_POSTS_FILE st =
     (let st1 = st\<lparr>events := events st @ [PathExists LAST_POSTS_FILE]\<rparr> in
      case files st LAST_POSTS_FILE of
        None \<Rightarrow> ({}, st1)
      | Some f \<Rightarrow>
          (let st2 = st1\<lparr>events := events st1 @ [OpenRead LAST_POSTS_FILE]\<rparr> in
           case f of
             Csv rows \<Rightarrow> (read_links rows {}, st2)
           | Unreadable rows e \<Rightarrow>
               (read_links rows {},
                st2\<lparr>events := events st2 @
                  [Print (''Warning: failed to read '' @ LAST_POSTS_FILE @ '': '' @ e)]\<rparr>)))"

text \<open>\<^verbatim>\<open>os.path.dirname\<close> of \<^verbatim>\<open>posixpath\<close>.\<close>

definition dirname :: "string \<Rightarrow> string" where
  "dirname p =
     (let head = rev (dropWhile (\<lambda>c. c \<noteq> CHR ''/'') (rev p)) in
      if head \<noteq> [] \<and> \<not> list_all (\<lambda>c. c = CHR ''/'') head
      then rev (dropWhile (\<lambda>c. c = CHR ''/'') (rev head)) else head)"

definition csv_row_of :: "post \<Rightarrow> csv_row" where
  "csv_row_of p = [(''title'', title p), (''link'', link p), (''date'', date p)]"

text \<open>
  Line 156 stands before the \<^verbatim>\<open>try\<close>: \<^verbatim>\<open>os.makedirs\<close> of the empty path (a state file
  named without a directory) raises \<^verbatim>\<open>FileNotFoundError\<close>, and any other failure of it is
  an \<^verbatim>\<open>OSError\<close>; neither is caught. Opening the file for writing happens inside the
  \<^verbatim>\<open>try\<close>: its failure is printed and the file stays as it was.
\<close>

definition save_current_posts ::
  "world \<Rightarrow> string \<Rightarrow> post list \<Rightarrow> state \<Rightarrow> unit result \<times> state" where
  "save_current_posts w LAST_POSTS_FILE posts st =
     (let d = dirname LAST_POSTS_FILE;
          st1 = st\<lparr>events := events st @ [MakeDirs d]\<rparr>
      in if d = [] then (Raise FileNotFoundError, st1)
         else if makedirs_fails w d then (Raise OSError, st1)
         else
           (let st2 = st1\<lparr>events := events st1 @ [OpenWrite LAST_POSTS_FILE]\<rparr> in
            case open_w_error w LAST_POSTS_FILE of
              Some e \<Rightarrow>
                (Return (),
                 st2\<lparr>events := events st2 @
                   [Print (''Warning: failed to write '' @ LAST_POSTS_FILE @ '': '' @ e)]\<rparr>)
            | None \<Rightarrow>
                (Return (),
                 st2\<lparr>files := (files st2)(LAST_POSTS_FILE \<mapsto> Csv (map csv_row_of posts))\<rparr>)))"

subsection \<open>Notifier (lines 179-211)\<close>

fun str_nat :: "nat \<Rightarrow> string" where
  "str_nat n =
     (if n < 10 then [char_of (48 + n)]
      else str_nat (n div 10) @ [char_of (48 + n mod 10)])"

declare str_nat.simps [simp del]

definition nl :: string where
  "nl = [CHR 0x0A]"

definition html_item :: "post \<Rightarrow> string" where
  "html_item p =
     nl @ replicate 8 CHR '' '' @ ''<p>'' @ nl @
     replicate 12 CHR '' '' @ ''title: '' @ title p @ nl @
     replicate 12 CHR '' '' @ ''date: '' @ date p @ nl @
     replicate 12 CHR '' '' @ ''link: '' @ link p @ nl @
     replicate 8 CHR '' '' @ ''</p>'' @ nl @
     replicate 8 CHR '' '' @ ''<hr>'' @ nl @
     replicate 8 CHR '' ''"

fun html_items :: "post list \<Rightarrow> string \<Rightarrow> string" where
  "html_items [] html_body = html_body"
| "html_items (p # new_posts) html_body = html_items new_posts (html_body @ html_item p)"

text \<open>The bytes before the title in the subject (line 202) and in the message of line 233.\<close>

definition subject_mark :: string where
  "subject_mark =
     [CHR 0xEF, CHR 0xA3, CHR 0xBF, CHR 0xC3, CHR 0xBC, CHR 0xC3, CHR 0xB6, CHR 0xC2, CHR 0xAE]"

definition found_mark :: string where
  "found_mark =
     [CHR 0xEF, CHR 0xA3, CHR 0xBF, CHR 0xC3, CHR 0xBC, CHR 0xC3, CHR 0xA9, CHR 0xC3, CHR 0xA2]"

definition send_alert_email :: "world \<Rightarrow> post list \<Rightarrow> event list \<Rightarrow> event list" where
  "send_alert_email w new_posts tr =
     (if cfg w ''RESEND_API_KEY'' = []
      then tr @ [Print ''Error: RESEND_API_KEY not set. Cannot send email.'']
      else
        (let html_body =
               html_items new_posts (''<h1>New Deals Found: '' @ cfg w ''TITLE'' @ ''</h1>'');
             params =
               \<lparr>from_addr = cfg w ''SENDER_EMAIL'',
                to_addrs = [cfg w ''RECIPIENT_EMAIL''],
                subject = subject_mark @ '' '' @ cfg w ''TITLE'' @ '' Alert: '' @
                          str_nat (length new_posts) @ '' New Posts Found'',
                html = html_body\<rparr>;
             tr1 = tr @ [EmailsSend params]
         in case resend_send w params of
              Inr response_id \<Rightarrow>
                tr1 @ [Print (''Email sent. ID: '' @
                         (case response_id of None \<Rightarrow> ''None'' | Some i \<Rightarrow> i))]
            | Inl e \<Rightarrow> tr1 @ [Print (''Error sending email with Resend: '' @ e)]))"

subsection \<open>The run (lines 40 and 216-236)\<close>

text \<open>
  The module runs the check first, then the main block. The run ends with the value
  \<open>Return ()\<close> (exit status 0) or with the exception that left it; it is \<open>None\<close> when the
  crawl does not end. \<open>process_posts\<close> is the \<^verbatim>\<open>else\<close> branch of lines 227-236.
\<close>

definition process_posts :: "world \<Rightarrow> post list \<Rightarrow> state \<Rightarrow> unit result \<times> state" where
  "process_posts w current_posts st =
     (case load_last_posts (cfg w ''LAST_POSTS_FILE'') st of
        (last_post_links, st3) \<Rightarrow>
          (let new_posts = check_for_new_posts current_posts last_post_links in
           case save_current_posts w (cfg w ''LAST_POSTS_FILE'') current_posts st3 of
             (Raise e, st4) \<Rightarrow> (Raise e, st4)
           | (Return u, st4) \<Rightarrow>
               if new_posts \<noteq> []
               then (Return (),
                     st4\<lparr>events :=
                       send_alert_email w new_posts
                         (events st4 @
                          [Print (found_mark @ '' Found '' @ str_nat (length new_posts) @
                                  '' new posts! Sending email alert...'')])\<rparr>)
               else (Return (),
                     st4\<lparr>events := events st4 @ [Print ''No new posts since last check.'']\<rparr>)))"

definition main :: "world \<Rightarrow> state \<Rightarrow> (unit result \<times> state) option" where
  "main w st =
     (case check_environment_vars (environ w) (events st) of
        (Raise e, tr) \<Rightarrow> Some (Raise e, st\<lparr>events := tr\<rparr>)
      | (Return u, tr) \<Rightarrow>
          (let tr1 = tr @ [Print (''--- Running Scraper: '' @ cfg w ''TITLE'' @ '' at '' @
                                  strftime w @ '' ---'')]
           in case scrape_all_pages (site w) (cfg w ''URL'') tr1 of
                None \<Rightarrow> None
              | Some (Raise e, tr2) \<Rightarrow> Some (Raise e, st\<lparr>events := tr2\<rparr>)
              | Some (Return current_posts, tr2) \<Rightarrow>
                  if current_posts = []
                  then Some (Return (),
                             st\<lparr>events := tr2 @
                               [Print ''No posts found or scraping failed. Exiting.'']\<rparr>)
                  else Some (process_posts w current_posts (st\<lparr>events := tr2\<rparr>))))"

definition exit_status :: "unit result \<Rightarrow> nat" where
  "exit_status r = (case r of Return u \<Rightarrow> 0 | Raise (SystemExit n) \<Rightarrow> n | Raise e \<Rightarrow> 1)"

section \<open>Notions of the specification\<close>

text \<open>
  The records one page's anchors stand for, in the order of the page: an anchor with a
  non-empty href and a non-empty title gives one record.
\<close>

fun candidates :: "anchor list \<Rightarrow> post list" where
  "candidates [] = []"
| "candidates (a # as) =
     (case href a of
        None \<Rightarrow> candidates as
      | Some h \<Rightarrow>
          if h \<noteq> [] \<and> get_text a \<noteq> []
          then \<lparr>title = get_text a, link = link_full h, date = date_text (find_parent_dt a)\<rparr>
               # candidates as
          else candidates as)"

text \<open>First seen wins: every record is kept unless an earlier one has its link.\<close>

function first_seen :: "post list \<Rightarrow> post list" where
  "first_seen [] = []"
| "first_seen (p # ps) = p # first_seen (filter (\<lambda>q. link q \<noteq> link p) ps)"
  by pat_completeness auto
termination
  by (relation "measure length") (auto simp: less_Suc_eq_le)

text \<open>The entry anchors of the pages a trace has fetched, in the order of the trace.\<close>

fun fetched_anchors :: "(string \<Rightarrow> http_result) \<Rightarrow> event list \<Rightarrow> anchor list" where
  "fetched_anchors web [] = []"
| "fetched_anchors web (HttpGet u # es) =
     (case web u of
        Response page \<Rightarrow> search_result_links page @ fetched_anchors web es
      | RequestException e \<Rightarrow> fetched_anchors web es)"
| "fetched_anchors web (e # es) = fetched_anchors web es"

text \<open>The effects of a crawl: printing, fetching and sleeping.\<close>

fun crawl_event :: "event \<Rightarrow> bool" where
  "crawl_event (Print s) = True"
| "crawl_event (HttpGet u) = True"
| "crawl_event (Sleep n) = True"
| "crawl_event e = False"

text \<open>
  A chain of pages from \<open>url\<close>: every page is served, every page but the last has a pager
  anchor whose href leads to the next, and the last has no pager anchor.
\<close>

fun page_chain :: "(string \<Rightarrow> http_result) \<Rightarrow> string \<Rightarrow> soup list \<Rightarrow> bool" where
  "page_chain web url [] = False"
| "page_chain web url [page] = (web url = Response page \<and> next_link_tag page = None)"
| "page_chain web url (page # page' # pages) =
     (web url = Response page \<and>
      (case next_link_tag page of
         Some (Some h) \<Rightarrow> page_chain web (BASE_URL @ h) (page' # pages)
       | _ \<Rightarrow> False))"


definition next_url :: "soup \<Rightarrow> string" where
  "next_url page = (case next_link_tag page of Some (Some h) \<Rightarrow> BASE_URL @ h | _ \<Rightarrow> [])"

text \<open>The URLs of the pages of a chain, and the URL the last page leads to.\<close>

fun chain_urls :: "string \<Rightarrow> soup list \<Rightarrow> string list" where
  "chain_urls url [] = []"
| "chain_urls url (page # pages) = url # chain_urls (next_url page) pages"



definition scraping :: "string \<Rightarrow> event" where
  "scraping url = Print (''Scraping page: '' @ url)"



text \<open>Every required setting is present and not empty; the first line a run prints.\<close>

definition configured :: "world \<Rightarrow> bool" where
  "configured w =
     list_all (\<lambda>v. case environ w v of None \<Rightarrow> False | Some s \<Rightarrow> s \<noteq> []) required_vars"

definition run_banner :: "world \<Rightarrow> event" where
  "run_banner w =
     Print (''--- Running Scraper: '' @ cfg w ''TITLE'' @ '' at '' @ strftime w @ '' ---'')"


section \<open>Sample inputs\<close>

definition demo_a1 :: anchor where
  "demo_a1 = \<lparr>get_text = ''Deal A'', href = Some ''/node/1'',
              find_parent_dt = Some (Dt (Some (Dd (Some ''01/11/2025''))))\<rparr>"

definition demo_a2 :: anchor where
  "demo_a2 = \<lparr>get_text = ''Deal B'', href = Some ''https://external.example/x'',
              find_parent_dt = Some (Dt None)\<rparr>"

definition demo_a1_again :: anchor where
  "demo_a1_again = \<lparr>get_text = ''Deal A again'', href = Some ''/node/1'',
                    find_parent_dt = None\<rparr>"

definition demo_a3 :: anchor where
  "demo_a3 = \<lparr>get_text = ''Deal C'', href = Some ''/node/3'',
              find_parent_dt = Some (Dt (Some (Dd None)))\<rparr>"

definition demo_a4 :: anchor where
  "demo_a4 = \<lparr>get_text = ''Deal D'', href = Some ''/node/4'', find_parent_dt = None\<rparr>"

definition demo_page1 :: soup where
  "demo_page1 = \<lparr>select_search_results = [demo_a1, demo_a2],
                 select_dt_title = [demo_a1, demo_a2],
                 next_link_tag = Some (Some ''/p2'')\<rparr>"

definition demo_page2 :: soup where
  "demo_page2 = \<lparr>select_search_results = [],
                 select_dt_title = [demo_a1_again, demo_a3],
                 next_link_tag = Some (Some ''/p3'')\<rparr>"

definition demo_page3 :: soup where
  "demo_page3 = \<lparr>select_search_results = [demo_a4],
                 select_dt_title = [demo_a4],
                 next_link_tag = None\<rparr>"

definition demo_site :: "string \<Rightarrow> http_result" where
  "demo_site u =
     (if u = ''https://www.ozbargain.com.au/p1'' then Response demo_page1
      else if u = ''https://www.ozbargain.com.au/p2'' then Response demo_page2
      else if u = ''https://www.ozbargain.com.au/p3'' then Response demo_page3
      else RequestException ''404 Client Error'')"


definition demo_site_down :: "string \<Rightarrow> http_result" where
  "demo_site_down u = RequestException ''Read timed out''"

definition demo_environ :: "string \<Rightarrow> string option" where
  "demo_environ =
     map_of [(''URL'', ''https://www.ozbargain.com.au/p1''),
             (''LAST_POSTS_FILE'', ''data/last.csv''),
             (''SENDER_EMAIL'', ''from@example.org''),
             (''RECIPIENT_EMAIL'', ''to@example.org''),
             (''TITLE'', ''Deals''),
             (''RESEND_API_KEY'', ''key'')]"

definition demo_world :: world where
  "demo_world =
     \<lparr>environ = demo_environ, site = demo_site, strftime = ''2025-11-01 08:00:00'',
      makedirs_fails = (\<lambda>d. False), open_w_error = (\<lambda>p. None),
      resend_send = (\<lambda>params. Inr (Some ''msg-1''))\<rparr>"

definition demo_old_post :: post where
  "demo_old_post = \<lparr>title = ''Deal Z'', link = ''https://www.ozbargain.com.au/node/0'',
                    date = ''31/10/2025''\<rparr>"

definition demo_state :: state where
  "demo_state =
     \<lparr>files = [''data/last.csv'' \<mapsto> Csv [csv_row_of demo_old_post]], events = []\<rparr>"

text \<open>A first page whose pager anchor carries an absolute href.\<close>

definition demo_page_abs :: soup where
  "demo_page_abs = \<lparr>select_search_results = [demo_a1], select_dt_title = [demo_a1],
                    next_link_tag = Some (Some ''https://www.ozbargain.com.au/p2'')\<rparr>"

definition demo_site_abs :: "string \<Rightarrow> http_result" where
  "demo_site_abs u =
     (if u = ''https://www.ozbargain.com.au/p1'' then Response demo_page_abs
      else if u = ''https://www.ozbargain.com.au/p2'' then Response demo_page2
      else RequestException ''Invalid URL'')"

text \<open>An environment without a title and with an empty credential.\<close>

definition demo_environ_missing :: "string \<Rightarrow> string option" where
  "demo_environ_missing =
     map_of [(''URL'', ''https://www.ozbargain.com.au/p1''),
             (''LAST_POSTS_FILE'', ''data/last.csv''),
             (''SENDER_EMAIL'', ''from@example.org''),
             (''RECIPIENT_EMAIL'', ''to@example.org''),
             (''RESEND_API_KEY'', [])]"





text \<open>What the crawl of the sample site returns, and its trace.\<close>

definition demo_posts :: "post list" where
  "demo_posts =
     [\<lparr>title = ''Deal A'', link = ''https://www.ozbargain.com.au/node/1'', date = ''01/11/2025''\<rparr>,
      \<lparr>title = ''Deal B'', link = ''https://external.example/x'', date = []\<rparr>,
      \<lparr>title = ''Deal C'', link = ''https://www.ozbargain.com.au/node/3'', date = []\<rparr>,
      \<lparr>title = ''Deal D'', link = ''https://www.ozbargain.com.au/node/4'', date = []\<rparr>]"

definition demo_trace :: "event list" where
  "demo_trace =
     [Print ''Scraping page: https://www.ozbargain.com.au/p1'',
      HttpGet ''https://www.ozbargain.com.au/p1'', Sleep 1,
      Print ''Scraping page: https://www.ozbargain.com.au/p2'',
      HttpGet ''https://www.ozbargain.com.au/p2'', Sleep 1,
      Print ''Scraping page: https://www.ozbargain.com.au/p3'',
      HttpGet ''https://www.ozbargain.com.au/p3'']"

section \<open>Properties\<close>

subsection \<open>Delta\<close>

lemma check_for_new_posts_filter:
  "check_for_new_posts C S = filter (\<lambda>p. link p \<notin> S) C"
  by (induction C) simp_all

text \<open>
  C1. For every sequence of posts \<open>C\<close> and every set of links \<open>S\<close>,
  \<open>check_for_new_posts C S\<close> is the sequence of the posts of \<open>C\<close> whose link is not in \<open>S\<close>,
  in the order of \<open>C\<close>; against the empty set it is \<open>C\<close>, and against the set of all links
  of \<open>C\<close> it is empty.
\<close>

theorem check_for_new_posts_delta:
  "check_for_new_posts C S = filter (\<lambda>p. link p \<notin> S) C
   \<and> subseq (check_for_new_posts C S) C
   \<and> check_for_new_posts C {} = C
   \<and> check_for_new_posts C (link ` set C) = []"
  by (simp add: check_for_new_posts_filter)

subsection \<open>The crawl\<close>

lemma add_post_distinct: "distinct (map link ps) \<Longrightarrow> distinct (map link (add_post a ps))"
  by (auto simp: add_post_def Let_def list_ex_iff split: option.splits)

lemma extract_posts_distinct:
  "distinct (map link ps) \<Longrightarrow> distinct (map link (extract_posts as ps))"
  by (induction as arbitrary: ps) (simp_all add: add_post_distinct)

lemma extract_posts_append:
  "extract_posts (xs @ ys) acc = extract_posts ys (extract_posts xs acc)"
  by (induction xs arbitrary: acc) simp_all

lemma candidates_append: "candidates (xs @ ys) = candidates xs @ candidates ys"
  by (induction xs) (simp_all split: option.splits)

lemma fetched_anchors_append:
  "fetched_anchors web (xs @ ys) = fetched_anchors web xs @ fetched_anchors web ys"
  by (induction web xs rule: fetched_anchors.induct) (simp_all split: http_result.splits)

lemma filter_filter_link:
  "filter (\<lambda>q. link q \<noteq> l) (filter (\<lambda>c. link c \<notin> A) xs) =
   filter (\<lambda>c. link c \<notin> insert l A) xs"
  by (induction xs) auto

lemma extract_posts_first_seen:
  "extract_posts as acc =
   acc @ first_seen (filter (\<lambda>c. link c \<notin> link ` set acc) (candidates as))"
proof (induction as arbitrary: acc)
  case Nil
  show ?case by simp
next
  case (Cons a as)
  show ?case
  proof (cases "href a")
    case None
    then show ?thesis using Cons [of acc] by (simp add: add_post_def)
  next
    case (Some h)
    show ?thesis
    proof (cases "h \<noteq> [] \<and> get_text a \<noteq> []")
      case False
      then show ?thesis using Some Cons [of acc] by (auto simp: add_post_def)
    next
      case True
      show ?thesis
      proof (cases "link_full h \<in> link ` set acc")
        case True
        with \<open>h \<noteq> [] \<and> get_text a \<noteq> []\<close> Some Cons [of acc] show ?thesis
          by (auto simp: add_post_def list_ex_iff)
      next
        case False
        let ?c = "\<lparr>title = get_text a, link = link_full h, date = date_text (find_parent_dt a)\<rparr>"
        have "add_post a acc = acc @ [?c]"
          using True Some False by (auto simp: add_post_def list_ex_iff image_iff)
        then have "extract_posts (a # as) acc =
            (acc @ [?c]) @ first_seen (filter (\<lambda>c. link c \<notin> link ` set (acc @ [?c])) (candidates as))"
          using Cons [of "acc @ [?c]"] by simp
        moreover have "filter (\<lambda>c. link c \<notin> link ` set acc) (candidates (a # as)) =
            ?c # filter (\<lambda>c. link c \<notin> link ` set acc) (candidates as)"
          using True Some False by simp
        ultimately show ?thesis
          by (simp add: filter_filter_link conj_commute)
      qed
    qed
  qed
qed

lemma first_seen_links: "link ` set (first_seen xs) = link ` set xs"
  by (induction xs rule: first_seen.induct) auto

lemma first_seen_subset: "set (first_seen xs) \<subseteq> set xs"
  by (induction xs rule: first_seen.induct) auto

lemma first_seen_distinct: "distinct (map link (first_seen xs))"
proof (induction xs rule: first_seen.induct)
  case 1
  show ?case by simp
next
  case (2 p ps)
  have "link p \<notin> link ` set (first_seen (filter (\<lambda>q. link q \<noteq> link p) ps))"
    by (auto simp: first_seen_links)
  with 2 show ?case by simp
qed

lemma find_filter_other:
  "l \<noteq> k \<Longrightarrow> find (\<lambda>c. link c = l) (filter (\<lambda>q. link q \<noteq> k) xs) = find (\<lambda>c. link c = l) xs"
  by (induction xs) auto

lemma first_seen_by_link:
  "filter (\<lambda>p. link p = l) (first_seen xs) =
   (case find (\<lambda>c. link c = l) xs of None \<Rightarrow> [] | Some c \<Rightarrow> [c])"
proof (induction xs rule: first_seen.induct)
  case 1
  show ?case by simp
next
  case (2 p ps)
  show ?case
  proof (cases "link p = l")
    case True
    have "filter (\<lambda>q. link q = l) (first_seen (filter (\<lambda>q. link q \<noteq> link p) ps)) = []"
      using first_seen_subset [of "filter (\<lambda>q. link q \<noteq> link p) ps"] True
      by (auto simp: filter_empty_conv)
    with True show ?thesis by simp
  next
    case False
    then show ?thesis using 2 by (simp add: find_filter_other)
  qed
qed

lemma scrape_page_run:
  assumes "scrape_page web url acc tr = Some y"
  shows "\<exists>t. snd y = tr @ t \<and> list_all crawl_event t \<and>
       (\<forall>ps. fst y = Return ps \<longrightarrow> ps = extract_posts (fetched_anchors web t) acc)"
proof (rule scrape_page.raw_induct
    [where P = "\<lambda>web url acc tr y. \<exists>t. snd y = tr @ t \<and> list_all crawl_event t \<and>
       (\<forall>ps. fst y = Return ps \<longrightarrow> ps = extract_posts (fetched_anchors web t) acc)",
     rotated 1, OF assms], goal_cases)
  case (1 f web url acc tr y)
  show ?case
  proof (cases "web url")
    case (RequestException e)
    with 1(2) show ?thesis by (auto simp: Let_def)
  next
    case (Response page)
    show ?thesis
    proof (cases "next_link_tag page")
      case None
      with Response 1(2) show ?thesis by (auto simp: Let_def)
    next
      case (Some nxt)
      show ?thesis
      proof (cases nxt)
        case None
        with Some Response 1(2) show ?thesis by (auto simp: Let_def)
      next
        case (Some h)
        with \<open>next_link_tag page = Some nxt\<close> Response 1(2)
        have "f web (BASE_URL @ h) (extract_posts (search_result_links page) acc)
                (tr @ [Print (''Scraping page: '' @ url), HttpGet url] @ [Sleep 1]) = Some y"
          by (simp add: Let_def)
        from 1(1) [OF this] obtain t where
          t: "snd y = (tr @ [Print (''Scraping page: '' @ url), HttpGet url] @ [Sleep 1]) @ t"
             "list_all crawl_event t"
             "\<forall>ps. fst y = Return ps \<longrightarrow>
                ps = extract_posts (fetched_anchors web t)
                       (extract_posts (search_result_links page) acc)"
          by blast
        let ?t = "[Print (''Scraping page: '' @ url), HttpGet url, Sleep 1] @ t"
        have "snd y = tr @ ?t" using t(1) by simp
        moreover have "list_all crawl_event ?t" using t(2) by simp
        moreover have "fetched_anchors web ?t = search_result_links page @ fetched_anchors web t"
          using Response by simp
        ultimately show ?thesis using t(3)
          by (metis extract_posts_append)
      qed
    qed
  qed
qed


lemma scrape_page_distinct:
  assumes "scrape_page web url acc tr = Some (Return ps, tr')" and "distinct (map link acc)"
  shows "distinct (map link ps)"
  using scrape_page_run [OF assms(1)] assms(2) by (auto simp: extract_posts_distinct)

lemma scrape_all_pages_first_seen:
  assumes "scrape_all_pages web url tr = Some (Return ps, tr')"
  shows "ps = first_seen (candidates (fetched_anchors web (drop (length tr) tr')))"
  using scrape_page_run [OF assms [unfolded scrape_all_pages_def]]
  by (auto simp: extract_posts_first_seen)

lemma scrape_page_chain:
  "page_chain web url pages \<Longrightarrow>
   scrape_page web url acc tr =
     Some (Return (extract_posts (concat (map search_result_links pages)) acc),
           tr @ concat (map (\<lambda>u. [scraping u, HttpGet u, Sleep 1]) (butlast (chain_urls url pages)))
              @ [scraping (last (chain_urls url pages)), HttpGet (last (chain_urls url pages))])"
proof (induction web url pages arbitrary: acc tr rule: page_chain.induct)
  case (1 web url)
  then show ?case by simp
next
  case (2 web url page)
  then show ?case
    by (subst scrape_page.simps) (simp add: scraping_def)
next
  case (3 web url page page' pages)
  from "3.prems" obtain h where
    h: "web url = Response page" "next_link_tag page = Some (Some h)"
       "page_chain web (BASE_URL @ h) (page' # pages)"
    by (auto split: option.splits)
  have nu: "next_url page = BASE_URL @ h" using h(2) by (simp add: next_url_def)
  show ?case
    apply (subst scrape_page.simps)
    apply (simp only: h Let_def http_result.case option.case)
    apply (subst "3.IH" [OF h(2) refl h(3)])
    apply (simp add: nu scraping_def extract_posts_append)
    done
qed


lemma demo_chain:
  "page_chain demo_site ''https://www.ozbargain.com.au/p1'' [demo_page1, demo_page2, demo_page3]"
  by (simp add: demo_site_def demo_page1_def demo_page2_def demo_page3_def BASE_URL_def)

lemmas demo_defs =
  demo_site_def demo_page1_def demo_page2_def demo_page3_def demo_a1_def demo_a2_def
  demo_a3_def demo_a4_def demo_a1_again_def BASE_URL_def search_result_links_def
  add_post_def link_full_def startswith_def next_url_def scraping_def

lemma demo_extract:
  "extract_posts (concat (map search_result_links [demo_page1, demo_page2, demo_page3])) [] =
   demo_posts"
  by (simp add: demo_defs demo_posts_def)

lemma demo_scrape_page:
  "scrape_page demo_site ''https://www.ozbargain.com.au/p1'' [] tr = Some (Return demo_posts, tr @ demo_trace)"
  by (simp add: scrape_page_chain [OF demo_chain] demo_extract)
     (simp add: demo_defs demo_trace_def demo_posts_def)






lemma scrape_page_starts:
  assumes "scrape_page web url acc tr = Some y"
  shows "\<exists>rest. snd y = tr @ [Print (''Scraping page: '' @ url), HttpGet url] @ rest"
proof (cases "web url")
  case (RequestException e)
  with assms show ?thesis by (subst (asm) scrape_page.simps) (auto simp: Let_def)
next
  case (Response page)
  show ?thesis
  proof (cases "next_link_tag page")
    case None
    with Response assms show ?thesis by (subst (asm) scrape_page.simps) (auto simp: Let_def)
  next
    case (Some nxt)
    show ?thesis
    proof (cases nxt)
      case None
      with Some Response assms show ?thesis
        by (subst (asm) scrape_page.simps) (auto simp: Let_def)
    next
      case (Some h)
      with \<open>next_link_tag page = Some nxt\<close> Response assms
      have "scrape_page web (BASE_URL @ h) (extract_posts (search_result_links page) acc)
              (tr @ [Print (''Scraping page: '' @ url), HttpGet url] @ [Sleep 1]) = Some y"
        by (subst (asm) scrape_page.simps) (simp add: Let_def)
      from scrape_page_run [OF this] show ?thesis by auto
    qed
  qed
qed

subsection \<open>Deduplication\<close>

text \<open>
  C2. The collection holds at most one record per link at every point: a merge step keeps
  the links distinct, and so does a whole crawl from a collection with distinct links. For
  the collection a crawl returns and every link, the records with that link are the first
  record discovered with it on the pages fetched, alone, when there is one, and none
  otherwise: a link discovered twice is kept once, with the title and date of its first
  occurrence.
\<close>

theorem dedup_within_crawl:
  "(distinct (map link all_posts) \<longrightarrow> distinct (map link (add_post a all_posts)))
   \<and> (scrape_page web url all_posts tr = Some (Return ps, tr') \<longrightarrow>
        distinct (map link all_posts) \<longrightarrow> distinct (map link ps))
   \<and> (scrape_all_pages web url tr = Some (Return ps, tr') \<longrightarrow>
        distinct (map link ps) \<and>
        (\<forall>l. filter (\<lambda>p. link p = l) ps =
           (case find (\<lambda>c. link c = l) (candidates (fetched_anchors web (drop (length tr) tr')))
            of None \<Rightarrow> [] | Some c \<Rightarrow> [c])))"
proof (intro conjI impI)
  assume "distinct (map link all_posts)"
  then show "distinct (map link (add_post a all_posts))" by (rule add_post_distinct)
next
  assume "scrape_page web url all_posts tr = Some (Return ps, tr')"
    and "distinct (map link all_posts)"
  then show "distinct (map link ps)" by (rule scrape_page_distinct)
next
  assume "scrape_all_pages web url tr = Some (Return ps, tr')"
  then have "ps = first_seen (candidates (fetched_anchors web (drop (length tr) tr')))"
    by (rule scrape_all_pages_first_seen)
  then show "distinct (map link ps)"
    by (metis first_seen_distinct)
next
  assume "scrape_all_pages web url tr = Some (Return ps, tr')"
  then show "\<forall>l. filter (\<lambda>p. link p = l) ps =
           (case find (\<lambda>c. link c = l) (candidates (fetched_anchors web (drop (length tr) tr')))
            of None \<Rightarrow> [] | Some c \<Rightarrow> [c])"
    by (metis scrape_all_pages_first_seen first_seen_by_link)
qed

theorem dedup_within_crawl_witness:
  "distinct (map link ([] :: post list))
   \<and> distinct (map link (add_post demo_a1 []))
   \<and> scrape_page demo_site ''https://www.ozbargain.com.au/p1'' [] [] = Some (Return demo_posts, demo_trace)
   \<and> scrape_all_pages demo_site ''https://www.ozbargain.com.au/p1'' [] = Some (Return demo_posts, demo_trace)
   \<and> distinct (map link demo_posts)
   \<and> filter (\<lambda>p. link p = ''https://www.ozbargain.com.au/node/1'') demo_posts =
       [\<lparr>title = ''Deal A'', link = ''https://www.ozbargain.com.au/node/1'', date = ''01/11/2025''\<rparr>]
   \<and> candidates (fetched_anchors demo_site demo_trace) ! 2 =
       \<lparr>title = ''Deal A again'', link = ''https://www.ozbargain.com.au/node/1'', date = []\<rparr>"
proof -
  have run: "scrape_page demo_site ''https://www.ozbargain.com.au/p1'' [] [] = Some (Return demo_posts, demo_trace)"
    using demo_scrape_page [of "[]"] by simp
  have cands: "candidates (fetched_anchors demo_site demo_trace) =
      [\<lparr>title = ''Deal A'', link = ''https://www.ozbargain.com.au/node/1'', date = ''01/11/2025''\<rparr>,
       \<lparr>title = ''Deal B'', link = ''https://external.example/x'', date = []\<rparr>,
       \<lparr>title = ''Deal A again'', link = ''https://www.ozbargain.com.au/node/1'', date = []\<rparr>,
       \<lparr>title = ''Deal C'', link = ''https://www.ozbargain.com.au/node/3'', date = []\<rparr>,
       \<lparr>title = ''Deal D'', link = ''https://www.ozbargain.com.au/node/4'', date = []\<rparr>]"
    by (simp add: demo_trace_def demo_defs)
  note inst = dedup_within_crawl [of "[]" demo_a1 demo_site "''https://www.ozbargain.com.au/p1''"
      "[]" demo_posts demo_trace]
  from inst run have 1: "distinct (map link (add_post demo_a1 []))"
    and 2: "distinct (map link demo_posts)"
    and 3: "filter (\<lambda>p. link p = ''https://www.ozbargain.com.au/node/1'') demo_posts =
           (case find (\<lambda>c. link c = ''https://www.ozbargain.com.au/node/1'')
                   (candidates (fetched_anchors demo_site demo_trace))
            of None \<Rightarrow> [] | Some c \<Rightarrow> [c])"
    by (simp_all add: scrape_all_pages_def)
  from 3 have 4: "filter (\<lambda>p. link p = ''https://www.ozbargain.com.au/node/1'') demo_posts =
       [\<lparr>title = ''Deal A'', link = ''https://www.ozbargain.com.au/node/1'', date = ''01/11/2025''\<rparr>]"
    by (simp add: cands)
  show ?thesis using run 1 2 4 by (simp add: scrape_all_pages_def cands)
qed

subsection \<open>Pagination\<close>



subsection \<open>Link resolution\<close>

text \<open>
  C7. For an anchor with an href and a title, the link of the record is the base URL
  followed by the href when the href starts with a slash, and the href itself otherwise;
  so \<^verbatim>\<open>/deals/123\<close> resolves under the base URL and \<^verbatim>\<open>https://external.example/x\<close>
  stays as it is.
\<close>

theorem link_resolution:
  assumes "href a = Some h" and "h \<noteq> []" and "get_text a \<noteq> []"
  shows "add_post a all_posts =
           (let l = (if hd h = CHR ''/'' then BASE_URL @ h else h) in
            if l \<in> link ` set all_posts then all_posts
            else all_posts @ [\<lparr>title = get_text a, link = l, date = date_text (find_parent_dt a)\<rparr>])
         \<and> link_full ''/deals/123'' = BASE_URL @ ''/deals/123''
         \<and> link_full ''https://external.example/x'' = ''https://external.example/x''"
proof -
  have "startswith h ''/'' = (hd h = CHR ''/'')"
    using assms(2) by (cases h) (simp_all add: startswith_def)
  then show ?thesis
    using assms
    by (auto simp: add_post_def link_full_def Let_def list_ex_iff startswith_def image_iff
             intro: rev_bexI)
qed

theorem link_resolution_witness:
  "href demo_a1 = Some ''/node/1'' \<and> ''/node/1'' \<noteq> [] \<and> get_text demo_a1 \<noteq> []
   \<and> add_post demo_a1 [] =
       [\<lparr>title = ''Deal A'', link = ''https://www.ozbargain.com.au/node/1'', date = ''01/11/2025''\<rparr>]
   \<and> add_post demo_a2 [] =
       [\<lparr>title = ''Deal B'', link = ''https://external.example/x'', date = []\<rparr>]"
proof -
  have 1: "href demo_a1 = Some ''/node/1''" and 2: "''/node/1'' \<noteq> []" and 3: "get_text demo_a1 \<noteq> []"
    by (simp_all add: demo_a1_def)
  have 4: "href demo_a2 = Some ''https://external.example/x''" and 5: "''https://external.example/x'' \<noteq> []"
    and 6: "get_text demo_a2 \<noteq> []"
    by (simp_all add: demo_a2_def)
  show ?thesis
    using link_resolution [OF 1 2 3, of "[]"] link_resolution [OF 4 5 6, of "[]"] 1 3
    by (simp add: demo_a1_def demo_a2_def BASE_URL_def)
qed

subsection \<open>The next page\<close>

text \<open>
  C9. When the page has a next-page anchor with href \<open>h\<close>, the crawl continues at the base
  URL followed by \<open>h\<close>, whatever \<open>h\<close> is: the run is the run from that URL, and the next
  fetch of any run that returns is of that URL. An absolute \<open>h\<close> is prefixed all the same.
\<close>

theorem next_page_url:
  assumes "web url = Response page" and "next_link_tag page = Some (Some h)"
  shows "scrape_page web url all_posts tr =
           scrape_page web (BASE_URL @ h) (extract_posts (search_result_links page) all_posts)
             (tr @ [Print (''Scraping page: '' @ url), HttpGet url, Sleep 1])
         \<and> (\<forall>y. scrape_page web url all_posts tr = Some y \<longrightarrow>
               (\<exists>rest. snd y = tr @ [Print (''Scraping page: '' @ url), HttpGet url, Sleep 1,
                                  Print (''Scraping page: '' @ BASE_URL @ h),
                                  HttpGet (BASE_URL @ h)] @ rest))"
proof -
  have eq: "scrape_page web url all_posts tr =
           scrape_page web (BASE_URL @ h) (extract_posts (search_result_links page) all_posts)
             (tr @ [Print (''Scraping page: '' @ url), HttpGet url, Sleep 1])"
    using assms by (subst scrape_page.simps) (simp add: Let_def)
  show ?thesis
  proof (intro conjI allI impI)
    show "scrape_page web url all_posts tr =
           scrape_page web (BASE_URL @ h) (extract_posts (search_result_links page) all_posts)
             (tr @ [Print (''Scraping page: '' @ url), HttpGet url, Sleep 1])"
      by (rule eq)
  next
    fix y assume "scrape_page web url all_posts tr = Some y"
    with eq have "scrape_page web (BASE_URL @ h) (extract_posts (search_result_links page) all_posts)
             (tr @ [Print (''Scraping page: '' @ url), HttpGet url, Sleep 1]) = Some y"
      by simp
    from scrape_page_starts [OF this]
    show "\<exists>rest. snd y = tr @ [Print (''Scraping page: '' @ url), HttpGet url, Sleep 1,
                                  Print (''Scraping page: '' @ BASE_URL @ h),
                                  HttpGet (BASE_URL @ h)] @ rest"
      by auto
  qed
qed

theorem next_page_url_witness:
  "demo_site_abs ''https://www.ozbargain.com.au/p1'' = Response demo_page_abs
   \<and> next_link_tag demo_page_abs = Some (Some ''https://www.ozbargain.com.au/p2'')
   \<and> scrape_page demo_site_abs ''https://www.ozbargain.com.au/p1'' [] [] =
       Some (Return [\<lparr>title = ''Deal A'', link = ''https://www.ozbargain.com.au/node/1'',
                      date = ''01/11/2025''\<rparr>],
             [Print ''Scraping page: https://www.ozbargain.com.au/p1'',
              HttpGet ''https://www.ozbargain.com.au/p1'', Sleep 1,
              Print ''Scraping page: https://www.ozbargain.com.auhttps://www.ozbargain.com.au/p2'',
              HttpGet ''https://www.ozbargain.com.auhttps://www.ozbargain.com.au/p2'',
              Print ''Error fetching URL https://www.ozbargain.com.auhttps://www.ozbargain.com.au/p2: Invalid URL''])"
proof -
  have 1: "demo_site_abs ''https://www.ozbargain.com.au/p1'' = Response demo_page_abs"
    by (simp add: demo_site_abs_def)
  have 2: "next_link_tag demo_page_abs = Some (Some ''https://www.ozbargain.com.au/p2'')"
    by (simp add: demo_page_abs_def)
  have 3: "scrape_page demo_site_abs (BASE_URL @ ''https://www.ozbargain.com.au/p2'') acc tr =
      Some (Return acc, tr @
        [Print ''Scraping page: https://www.ozbargain.com.auhttps://www.ozbargain.com.au/p2'',
         HttpGet ''https://www.ozbargain.com.auhttps://www.ozbargain.com.au/p2'',
         Print ''Error fetching URL https://www.ozbargain.com.auhttps://www.ozbargain.com.au/p2: Invalid URL''])"
    for acc tr
    by (subst scrape_page.simps) (simp add: demo_site_abs_def BASE_URL_def)
  show ?thesis
    using next_page_url [of demo_site_abs "''https://www.ozbargain.com.au/p1''" demo_page_abs
        "''https://www.ozbargain.com.au/p2''" "[]" "[]"] 1 2
    by (simp add: 3) (simp add: demo_page_abs_def demo_defs)
qed

section \<open>Properties of the run\<close>

subsection \<open>The configuration check\<close>

lemma collect_missing_filter:
  "collect_missing env vars acc =
   acc @ filter (\<lambda>v. env v = None \<or> env v = Some []) vars"
  by (induction vars arbitrary: acc) (auto split: option.splits)

lemma check_environment_vars_ok:
  "configured w \<Longrightarrow> check_environment_vars (environ w) tr = (Return (), tr)"
proof -
  assume "configured w"
  then have "filter (\<lambda>v. environ w v = None \<or> environ w v = Some []) required_vars = []"
    by (auto simp: configured_def list_all_iff filter_empty_conv split: option.splits)
  then show ?thesis
    by (simp add: check_environment_vars_def collect_missing_filter)
qed

lemma cfg_checked:
  "configured w \<Longrightarrow> v \<in> set required_vars \<Longrightarrow> environ w v = Some (cfg w v) \<and> cfg w v \<noteq> []"
  by (auto simp: configured_def list_all_iff cfg_def split: option.splits)

lemma main_configured:
  "configured w \<Longrightarrow>
   main w st =
     (case scrape_all_pages (site w) (cfg w ''URL'') (events st @ [run_banner w]) of
        None \<Rightarrow> None
      | Some (Raise e, tr2) \<Rightarrow> Some (Raise e, st\<lparr>events := tr2\<rparr>)
      | Some (Return current_posts, tr2) \<Rightarrow>
          if current_posts = []
          then Some (Return (),
                 st\<lparr>events := tr2 @ [Print ''No posts found or scraping failed. Exiting.'']\<rparr>)
          else Some (process_posts w current_posts (st\<lparr>events := tr2\<rparr>)))"
  by (simp add: main_def check_environment_vars_ok run_banner_def Let_def)

text \<open>
  C8. When a required setting is unset or empty, the run prints the banner, the list of
  all the settings that are missing, in the order of the source, and the abort line, and
  ends with exit status 1; it has done nothing else: the files are as they were and the
  trace has only these three lines. When every setting is present the check returns
  without printing.
\<close>

theorem missing_configuration_aborts:
  "((\<exists>v\<in>set required_vars. environ w v = None \<or> environ w v = Some []) \<longrightarrow>
      main w st =
        Some (Raise (SystemExit 1),
              st\<lparr>events := events st @
                [Print (''--- '' @ critical_mark @ '' CRITICAL ERROR ---''),
                 Print (''The following required environment variables are missing: '' @
                        join '', '' (filter (\<lambda>v. environ w v = None \<or> environ w v = Some [])
                                        required_vars)),
                 Print ''Script aborted.'']\<rparr>)
      \<and> exit_status (Raise (SystemExit 1)) = 1)
   \<and> ((\<forall>v\<in>set required_vars. \<exists>s. environ w v = Some s \<and> s \<noteq> []) \<longrightarrow>
        check_environment_vars (environ w) tr = (Return (), tr))"
proof (intro conjI impI)
  assume "\<exists>v\<in>set required_vars. environ w v = None \<or> environ w v = Some []"
  then have "filter (\<lambda>v. environ w v = None \<or> environ w v = Some []) required_vars \<noteq> []"
    by (simp add: filter_empty_conv)
  then show "main w st =
        Some (Raise (SystemExit 1),
              st\<lparr>events := events st @
                [Print (''--- '' @ critical_mark @ '' CRITICAL ERROR ---''),
                 Print (''The following required environment variables are missing: '' @
                        join '', '' (filter (\<lambda>v. environ w v = None \<or> environ w v = Some [])
                                        required_vars)),
                 Print ''Script aborted.'']\<rparr>)"
    by (simp add: main_def check_environment_vars_def collect_missing_filter)
next
  show "exit_status (Raise (SystemExit 1)) = 1" by (simp add: exit_status_def)
next
  assume "\<forall>v\<in>set required_vars. \<exists>s. environ w v = Some s \<and> s \<noteq> []"
  then have "configured w"
    by (auto simp: configured_def list_all_iff)
  then show "check_environment_vars (environ w) tr = (Return (), tr)"
    by (rule check_environment_vars_ok)
qed

theorem missing_configuration_aborts_witness:
  "main (demo_world\<lparr>environ := demo_environ_missing\<rparr>) demo_state =
     Some (Raise (SystemExit 1),
           demo_state\<lparr>events :=
             [Print (''--- '' @ critical_mark @ '' CRITICAL ERROR ---''),
              Print ''The following required environment variables are missing: TITLE, RESEND_API_KEY'',
              Print ''Script aborted.'']\<rparr>)
   \<and> check_environment_vars (environ demo_world) [] = (Return (), [])"
proof -
  have 1: "\<exists>v\<in>set required_vars. environ (demo_world\<lparr>environ := demo_environ_missing\<rparr>) v = None
        \<or> environ (demo_world\<lparr>environ := demo_environ_missing\<rparr>) v = Some []"
    by (simp add: required_vars_def demo_environ_missing_def)
  have 2: "\<forall>v\<in>set required_vars. \<exists>s. environ demo_world v = Some s \<and> s \<noteq> []"
    by (simp add: required_vars_def demo_world_def demo_environ_def)
  have 3: "filter (\<lambda>v. demo_environ_missing v = None \<or> demo_environ_missing v = Some []) required_vars
      = [''TITLE'', ''RESEND_API_KEY'']"
    by (simp add: required_vars_def demo_environ_missing_def)
  from missing_configuration_aborts [of "demo_world\<lparr>environ := demo_environ_missing\<rparr>" demo_state "[]"] 1
  have "main (demo_world\<lparr>environ := demo_environ_missing\<rparr>) demo_state =
     Some (Raise (SystemExit 1),
           demo_state\<lparr>events :=
             [Print (''--- '' @ critical_mark @ '' CRITICAL ERROR ---''),
              Print ''The following required environment variables are missing: TITLE, RESEND_API_KEY'',
              Print ''Script aborted.'']\<rparr>)"
    by (simp add: 3 demo_state_def)
  moreover from missing_configuration_aborts [of demo_world demo_state "[]"] 2
  have "check_environment_vars (environ demo_world) [] = (Return (), [])"
    by blast
  ultimately show ?thesis by simp
qed

subsection \<open>Store and pipeline\<close>









lemma demo_configured: "configured (demo_world\<lparr>site := web\<rparr>)"
  by (simp add: configured_def demo_world_def demo_environ_def required_vars_def)

lemma demo_cfg:
  "cfg (demo_world\<lparr>site := web\<rparr>) ''URL'' = ''https://www.ozbargain.com.au/p1''"
  "cfg (demo_world\<lparr>site := web\<rparr>) ''LAST_POSTS_FILE'' = ''data/last.csv''"
  "cfg (demo_world\<lparr>site := web\<rparr>) ''TITLE'' = ''Deals''"
  by (simp_all add: cfg_def demo_world_def demo_environ_def)

lemma demo_banner:
  "run_banner (demo_world\<lparr>site := web\<rparr>) =
   Print ''--- Running Scraper: Deals at 2025-11-01 08:00:00 ---''"
  by (simp add: run_banner_def demo_cfg) (simp add: demo_world_def)

lemma demo_down_crawl:
  "scrape_all_pages demo_site_down ''https://www.ozbargain.com.au/p1'' tr =
     Some (Return [],
           tr @ [Print ''Scraping page: https://www.ozbargain.com.au/p1'',
                 HttpGet ''https://www.ozbargain.com.au/p1'',
                 Print ''Error fetching URL https://www.ozbargain.com.au/p1: Read timed out''])"
  unfolding scrape_all_pages_def
  by (subst scrape_page.simps) (simp add: demo_site_down_def)




subsection \<open>An empty crawl\<close>

text \<open>
  C10. When the crawl of a configured run returns no record, the run prints one line
  and ends with exit status 0; the files are as they were, and everything the run has added
  to the trace is printing, fetching or sleeping: the state file is neither looked for nor
  read nor written, and nothing is sent.
\<close>

theorem empty_crawl_skips_pipeline:
  assumes "configured w"
    and "scrape_all_pages (site w) (cfg w ''URL'') (events st @ [run_banner w]) = Some (Return [], tr)"
  shows "main w st =
           Some (Return (), st\<lparr>events := tr @ [Print ''No posts found or scraping failed. Exiting.'']\<rparr>)
         \<and> exit_status (Return ()) = 0
         \<and> (\<exists>st'. main w st = Some (Return (), st') \<and> files st' = files st \<and>
               (\<exists>added. events st' = events st @ added \<and> list_all crawl_event added))"
proof -
  have m: "main w st =
           Some (Return (), st\<lparr>events := tr @ [Print ''No posts found or scraping failed. Exiting.'']\<rparr>)"
    using assms by (simp add: main_configured)
  from scrape_page_run [OF assms(2) [unfolded scrape_all_pages_def]]
  obtain t where t: "tr = (events st @ [run_banner w]) @ t" "list_all crawl_event t"
    by auto
  have "tr @ [Print ''No posts found or scraping failed. Exiting.''] =
      events st @ ([run_banner w] @ t @ [Print ''No posts found or scraping failed. Exiting.''])"
    using t(1) by simp
  moreover have "list_all crawl_event
      ([run_banner w] @ t @ [Print ''No posts found or scraping failed. Exiting.''])"
    using t(2) by (simp add: run_banner_def)
  ultimately have "\<exists>added. events (st\<lparr>events := tr @ [Print ''No posts found or scraping failed. Exiting.'']\<rparr>)
        = events st @ added \<and> list_all crawl_event added"
    by simp
  with m show ?thesis by (simp add: exit_status_def)
qed


theorem empty_crawl_skips_pipeline_witness:
  "configured (demo_world\<lparr>site := demo_site_down\<rparr>)
   \<and> scrape_all_pages demo_site_down ''https://www.ozbargain.com.au/p1''
         [Print ''--- Running Scraper: Deals at 2025-11-01 08:00:00 ---''] =
       Some (Return [],
             [Print ''--- Running Scraper: Deals at 2025-11-01 08:00:00 ---'',
              Print ''Scraping page: https://www.ozbargain.com.au/p1'',
              HttpGet ''https://www.ozbargain.com.au/p1'',
              Print ''Error fetching URL https://www.ozbargain.com.au/p1: Read timed out''])
   \<and> main (demo_world\<lparr>site := demo_site_down\<rparr>) demo_state =
       Some (Return (),
             demo_state\<lparr>events :=
               [Print ''--- Running Scraper: Deals at 2025-11-01 08:00:00 ---'',
                Print ''Scraping page: https://www.ozbargain.com.au/p1'',
                HttpGet ''https://www.ozbargain.com.au/p1'',
                Print ''Error fetching URL https://www.ozbargain.com.au/p1: Read timed out'',
                Print ''No posts found or scraping failed. Exiting.'']\<rparr>)"
proof -
  have c: "configured (demo_world\<lparr>site := demo_site_down\<rparr>)" by (rule demo_configured)
  have r: "scrape_all_pages (site (demo_world\<lparr>site := demo_site_down\<rparr>))
             (cfg (demo_world\<lparr>site := demo_site_down\<rparr>) ''URL'')
             (events demo_state @ [run_banner (demo_world\<lparr>site := demo_site_down\<rparr>)]) =
           Some (Return [],
             [Print ''--- Running Scraper: Deals at 2025-11-01 08:00:00 ---'',
              Print ''Scraping page: https://www.ozbargain.com.au/p1'',
              HttpGet ''https://www.ozbargain.com.au/p1'',
              Print ''Error fetching URL https://www.ozbargain.com.au/p1: Read timed out''])"
    by (simp add: demo_cfg demo_banner demo_down_crawl demo_state_def)
  from empty_crawl_skips_pipeline [OF c r] c r show ?thesis
    by (simp add: demo_cfg demo_banner demo_state_def)
qed

subsection \<open>The snapshot\<close>





subsection \<open>A fetch that fails\<close>









subsection \<open>Saving and loading\<close>






end
